theory Spec2Isabelle
  imports Complex_Main "HOL-Library.Sublist" "HOL-Library.Log_Nat"
begin

section \<open>Strings\<close>

text \<open>
  Document text is a \<open>string\<close>; a character stands for a code point below 256.
  The functions of this section are the methods of Python's \<open>str\<close> that
  \<open>LegalDocumentAnalyzer\<close> calls, on that alphabet.
\<close>

definition char_lower :: "char \<Rightarrow> char" where
  \<comment> \<open>\<open>str.lower\<close> on one character: A-Z, and the accented capitals 192-222 but the
      multiplication sign 215, move up by 32.\<close>
  "char_lower c =
     (let n = (of_char c :: nat)
      in if (65 \<le> n \<and> n \<le> 90) \<or> (192 \<le> n \<and> n \<le> 222 \<and> n \<noteq> 215)
         then char_of (n + 32) else c)"

definition lower :: "string \<Rightarrow> string" where
  "lower s = map char_lower s"

definition is_space :: "char \<Rightarrow> bool" where
  \<comment> \<open>\<open>str.isspace\<close>: tab, line feed, vertical tab, form feed, carriage return, the
      separators 28-31, space, next line (133) and no-break space (160).\<close>
  "is_space c =
     (let n = (of_char c :: nat)
      in (9 \<le> n \<and> n \<le> 13) \<or> (28 \<le> n \<and> n \<le> 32) \<or> n = 133 \<or> n = 160)"

definition strip :: "string \<Rightarrow> string" where
  "strip s = rev (dropWhile is_space (rev (dropWhile is_space s)))"

fun split_from :: "char \<Rightarrow> string \<Rightarrow> string \<Rightarrow> string list" where
  "split_from sep cur [] = [rev cur]"
| "split_from sep cur (c # cs) =
     (if c = sep then rev cur # split_from sep [] cs else split_from sep (c # cur) cs)"

definition str_split :: "string \<Rightarrow> char \<Rightarrow> string list" where
  \<comment> \<open>\<open>text.split(sep)\<close> for a separator of one character\<close>
  "str_split s sep = split_from sep [] s"

fun starts_with :: "string \<Rightarrow> string \<Rightarrow> bool" where
  "starts_with [] s = True"
| "starts_with (k # ks) [] = False"
| "starts_with (k # ks) (c # cs) = (k = c \<and> starts_with ks cs)"

fun str_in :: "string \<Rightarrow> string \<Rightarrow> bool" where
  \<comment> \<open>\<open>keyword in text\<close>\<close>
  "str_in k [] = starts_with k []"
| "str_in k (c # cs) = (starts_with k (c # cs) \<or> str_in k cs)"

definition re_search :: "string \<Rightarrow> string \<Rightarrow> bool" where
  \<comment> \<open>\<open>re.search(pattern, s)\<close> is not None. Every pattern of \<open>clause_patterns\<close> and
      \<open>boilerplate_patterns\<close> is made of letters, spaces and the hyphen: none has a
      character that is special in a regular expression, so the search finds the pattern
      exactly where it occurs as a substring.\<close>
  "re_search pattern s = str_in pattern s"

section \<open>The pattern tables of \<open>LegalDocumentAnalyzer.__init__\<close>\<close>

definition clause_patterns :: "(string \<times> string list) list" where
  \<comment> \<open>a dict, iterated in insertion order\<close>
  "clause_patterns =
    [(''payment'', [''payment'', ''fee'', ''cost'', ''price'', ''remuneration'', ''compensation'']),
     (''termination'', [''terminate'', ''end'', ''expire'', ''cancel'', ''dissolution'']),
     (''liability'', [''liable'', ''liability'', ''responsible'', ''damages'', ''loss'']),
     (''confidentiality'', [''confidential'', ''non-disclosure'', ''proprietary'', ''trade secret'']),
     (''intellectual_property'',
        [''copyright'', ''patent'', ''trademark'', ''intellectual property'', ''IP'']),
     (''warranty'', [''warrant'', ''guarantee'', ''representation'', ''condition'']),
     (''dispute_resolution'',
        [''dispute'', ''arbitration'', ''mediation'', ''court'', ''jurisdiction'']),
     (''force_majeure'', [''force majeure'', ''act of god'', ''unforeseeable'', ''beyond control'']),
     (''governing_law'', [''governing law'', ''applicable law'', ''jurisdiction'', ''venue'']),
     (''amendment'', [''amend'', ''modify'', ''change'', ''alter'', ''update''])]"

definition risk_keywords_high :: "string list" where
  "risk_keywords_high =
    [''penalty'', ''breach'', ''default'', ''liquidated damages'', ''forfeit'', ''void'', ''null'']"

definition risk_keywords_medium :: "string list" where
  "risk_keywords_medium =
    [''may'', ''discretion'', ''reasonable'', ''commercially reasonable'', ''best efforts'']"

definition risk_keywords_low :: "string list" where
  "risk_keywords_low = [''shall'', ''will'', ''must'', ''required'', ''mandatory'']"

definition boilerplate_patterns :: "string list" where
  "boilerplate_patterns =
    [''this agreement shall be governed by'', ''entire agreement'', ''severability'',
     ''no waiver'', ''counterparts'', ''headings are for convenience only'']"

section \<open>Risk level and importance score\<close>

definition count_present :: "string list \<Rightarrow> string \<Rightarrow> nat" where
  \<comment> \<open>\<open>sum(1 for keyword in keywords if keyword in s)\<close>\<close>
  "count_present keywords s = length (filter (\<lambda>keyword. str_in keyword s) keywords)"

definition assess_risk_level :: "string \<Rightarrow> string" where
  "assess_risk_level txt =
     (let text_lower = lower txt;
          high_risk_count = count_present risk_keywords_high text_lower;
          medium_risk_count = count_present risk_keywords_medium text_lower;
          low_risk_count = count_present risk_keywords_low text_lower
      in if high_risk_count > 0 then ''high''
         else if medium_risk_count > low_risk_count then ''medium''
         else ''low'')"

definition important_types :: "string list" where
  "important_types = [''liability'', ''payment'', ''termination'', ''intellectual_property'']"

definition legal_keywords :: "string list" where
  "legal_keywords = [''shall'', ''liable'', ''damages'', ''breach'', ''default'']"

fun add_important :: "int \<Rightarrow> string list \<Rightarrow> int" where
  \<comment> \<open>the loop over \<open>clause_types\<close> that raises \<open>base_score\<close>\<close>
  "add_important base_score [] = base_score"
| "add_important base_score (clause_type # rest) =
     (if clause_type \<in> set important_types then add_important (base_score + 2) rest
      else add_important base_score rest)"

definition calculate_importance_score :: "string \<Rightarrow> string list \<Rightarrow> int" where
  "calculate_importance_score txt clause_types =
     (let base_score = add_important 5 clause_types;
          base_score = (if length txt > 200 then base_score + 1 else base_score);
          keyword_count = int (count_present (map lower legal_keywords) (lower txt));
          base_score = base_score + min keyword_count 3
      in min base_score 10)"

section \<open>Clause classification\<close>

record clause =
  clause_id :: nat
  clause_text :: string
  clause_types :: "string list"
  risk_level :: string
  importance_score :: int
  position :: nat

definition matched_types :: "string \<Rightarrow> string list" where
  \<comment> \<open>the loop over \<open>clause_patterns.items()\<close>: a type is appended at its first pattern
      found, and the scan of that type's patterns stops there\<close>
  "matched_types sentence_lower =
     map fst (filter (\<lambda>(clause_type, patterns).
                        list_ex (\<lambda>pattern. re_search pattern sentence_lower) patterns)
                     clause_patterns)"

fun classify_from :: "nat \<Rightarrow> string list \<Rightarrow> clause list" where
  \<comment> \<open>the loop over \<open>enumerate(sentences)\<close>, from index \<open>i\<close> on\<close>
  "classify_from i [] = []"
| "classify_from i (sentence # rest) =
     (if length (strip sentence) < 20 then classify_from (Suc i) rest
      else (let found = matched_types (lower sentence)
            in if found \<noteq> []
               then \<lparr>clause_id = i, clause_text = strip sentence, clause_types = found,
                     risk_level = assess_risk_level sentence,
                     importance_score = calculate_importance_score sentence found,
                     position = i\<rparr> # classify_from (Suc i) rest
               else classify_from (Suc i) rest))"

definition classify_clauses :: "string \<Rightarrow> clause list" where
  "classify_clauses txt = classify_from 0 (str_split txt (CHR ''.''))"

definition scenario_text :: string where
  \<comment> \<open>the two-sentence scenario of the specification\<close>
  "scenario_text =
     ''This Agreement shall terminate after 30 days. The Client shall pay a penalty fee for any breach.''"

definition delaware_text :: string where
  \<comment> \<open>the governing-law sentence of the specification\<close>
  "delaware_text = ''This agreement shall be governed by the laws of Delaware.''"

definition short_segment_text :: string where
  \<comment> \<open>a text whose first segment has 19 characters\<close>
  "short_segment_text = ''Due date: no waiver.''"

section \<open>Risk level by occurrence counts, as the specification words it\<close>

text \<open>
  The specification counts substring occurrences per tier, a keyword that appears \<open>n\<close>
  times contributing \<open>n\<close>. \<open>occurrences k s\<close> is the number of positions of \<open>s\<close>
  at which \<open>k\<close> starts; \<open>spec_assess_risk\<close> is the decision rule on those counts.
  These definitions are compared with \<open>assess_risk_level\<close> and are used nowhere else.
\<close>

fun occurrences :: "string \<Rightarrow> string \<Rightarrow> nat" where
  "occurrences k [] = 0"
| "occurrences k (c # cs) = (if starts_with k (c # cs) then 1 else 0) + occurrences k cs"

definition spec_tier_count :: "string list \<Rightarrow> string \<Rightarrow> nat" where
  "spec_tier_count keywords s = sum_list (map (\<lambda>keyword. occurrences keyword s) keywords)"

definition spec_assess_risk :: "string \<Rightarrow> string" where
  "spec_assess_risk txt =
     (if spec_tier_count risk_keywords_high (lower txt) > 0 then ''high''
      else if spec_tier_count risk_keywords_medium (lower txt)
                > spec_tier_count risk_keywords_low (lower txt) then ''medium''
      else ''low'')"


section \<open>Python numbers\<close>

text \<open>
  A Python \<open>float\<close> is a binary64 number; the model keeps the rational it denotes.
  \<open>binary64 q\<close> is the float nearest to \<open>q\<close>, ties to the even significand: 53 bits
  of precision above \<open>2\<^sup>-\<^sup>1\<^sup>0\<^sup>2\<^sup>2\<close>, multiples of \<open>2\<^sup>-\<^sup>1\<^sup>0\<^sup>7\<^sup>4\<close> below. A float literal
  such as \<open>0.8\<close> is \<open>binary64 (8 / 10)\<close>.
  \<^item> \<open>true_div\<close> is \<open>a / b\<close> on two \<open>int\<close>s, which CPython rounds correctly from the
    exact quotient; it raises \<open>ZeroDivisionError\<close> on a zero divisor and
    \<open>OverflowError\<close> when the result is too large for a float.
  \<^item> \<open>float_mul_int\<close> is \<open>x * n\<close> for a float and a small \<open>int\<close>; the products of
    \<open>analyze_tone\<close> are at most 50, far from the overflow to infinity, which the model
    leaves out.
  \<^item> \<open>py_min x n\<close> is \<open>min(x, n)\<close>: Python returns the second argument only when it
    is smaller, and returns it as the \<open>int\<close> it is.
  \<^item> \<open>py_round v ndigits\<close> is \<open>round(v, ndigits)\<close> for \<open>ndigits\<close> not negative: an
    \<open>int\<close> is returned unchanged; a float is rounded to the nearest decimal with
    \<open>ndigits\<close> places from its exact binary value, ties to even, and that decimal is
    converted back to the nearest float.
\<close>

datatype py_error = ZeroDivisionError | OverflowError

datatype py_number = PyInt int | PyFloat rat

definition round_half_even :: "rat \<Rightarrow> int" where
  "round_half_even q =
     (let f = \<lfloor>q\<rfloor>; d = q - of_int f
      in if d < 1 / 2 then f else if 1 / 2 < d then f + 1 else if even f then f else f + 1)"

definition floor_log2 :: "rat \<Rightarrow> int" where
  "floor_log2 q =
     (let (a, b) = quotient_of q; d = bitlen a - bitlen b
      in if 2 powi d \<le> q then d else d - 1)"

definition binary64 :: "rat \<Rightarrow> rat" where
  "binary64 q =
     (if q = 0 then 0
      else let e = max (floor_log2 \<bar>q\<bar>) (- 1022); ulp = 2 powi (e - 52)
           in of_int (round_half_even (q / ulp)) * ulp)"

definition true_div :: "int \<Rightarrow> int \<Rightarrow> py_error + rat" where
  "true_div a b =
     (if b = 0 then Inl ZeroDivisionError
      else let r = binary64 (of_int a / of_int b)
           in if 2 ^ 1024 \<le> \<bar>r\<bar> then Inl OverflowError else Inr r)"

definition float_mul_int :: "rat \<Rightarrow> int \<Rightarrow> rat" where
  "float_mul_int x n = binary64 (x * of_int n)"

definition py_min :: "rat \<Rightarrow> int \<Rightarrow> py_number" where
  "py_min x n = (if of_int n < x then PyInt n else PyFloat x)"

fun py_round :: "py_number \<Rightarrow> nat \<Rightarrow> py_number" where
  "py_round (PyInt n) ndigits = PyInt n"
| "py_round (PyFloat x) ndigits =
     PyFloat (binary64 (of_int (round_half_even (x * 10 ^ ndigits)) / 10 ^ ndigits))"

section \<open>Boilerplate detection\<close>

record boilerplate_match =
  bp_id :: nat
  bp_text :: string
  pattern_matched :: string
  confidence :: rat

fun first_pattern :: "string list \<Rightarrow> string \<Rightarrow> string option" where
  "first_pattern [] sentence_lower = None"
| "first_pattern (pattern # rest) sentence_lower =
     (if re_search pattern sentence_lower then Some pattern
      else first_pattern rest sentence_lower)"

fun detect_from :: "nat \<Rightarrow> string list \<Rightarrow> boilerplate_match list" where
  "detect_from i [] = []"
| "detect_from i (sentence # rest) =
     (case first_pattern boilerplate_patterns (lower sentence) of
        None \<Rightarrow> detect_from (Suc i) rest
      | Some pattern \<Rightarrow>
          \<lparr>bp_id = i, bp_text = strip sentence, pattern_matched = pattern,
           confidence = binary64 (8 / 10)\<rparr> # detect_from (Suc i) rest)"

definition detect_boilerplate :: "string \<Rightarrow> boilerplate_match list" where
  "detect_boilerplate txt = detect_from 0 (str_split txt (CHR ''.''))"


section \<open>Timeline extraction\<close>

text \<open>
  The dates and durations of a sentence are what \<open>re.findall\<close> returns for the patterns
  of \<open>date_patterns\<close> and \<open>duration_patterns\<close>. The regular-expression engine is a
  library: \<open>findall\<close> (with the flag \<open>re.IGNORECASE\<close> applied) and the two pattern
  lists are parameters, \<open>'p\<close> the type of a pattern and \<open>'m\<close> the type of a match. The
  deadline keywords are plain substring tests and are modelled in full.
\<close>

record 'm timeline_entry =
  sentence_id :: nat
  entry_text :: string
  dates :: "'m list"
  durations :: "'m list"
  deadlines :: "string list"

definition deadline_keywords :: "string list" where
  "deadline_keywords =
     [''deadline'', ''due date'', ''expiry'', ''termination date'', ''completion date'']"

fun timeline_from ::
  "('p \<Rightarrow> string \<Rightarrow> 'm list) \<Rightarrow> 'p list \<Rightarrow> 'p list \<Rightarrow> nat \<Rightarrow> string list
     \<Rightarrow> 'm timeline_entry list" where
  "timeline_from findall date_patterns duration_patterns i [] = []"
| "timeline_from findall date_patterns duration_patterns i (sentence # rest) =
     (let found_dates = concat (map (\<lambda>pattern. findall pattern sentence) date_patterns);
          found_durations = concat (map (\<lambda>pattern. findall pattern sentence) duration_patterns);
          found_deadlines =
            filter (\<lambda>keyword. str_in (lower keyword) (lower sentence)) deadline_keywords;
          later = timeline_from findall date_patterns duration_patterns (Suc i) rest
      in if found_dates \<noteq> [] \<or> found_durations \<noteq> [] \<or> found_deadlines \<noteq> []
         then \<lparr>sentence_id = i, entry_text = strip sentence, dates = found_dates,
               durations = found_durations, deadlines = found_deadlines\<rparr> # later
         else later)"

definition extract_timeline_info ::
  "('p \<Rightarrow> string \<Rightarrow> 'm list) \<Rightarrow> 'p list \<Rightarrow> 'p list \<Rightarrow> string \<Rightarrow> 'm timeline_entry list" where
  "extract_timeline_info findall date_patterns duration_patterns txt =
     timeline_from findall date_patterns duration_patterns 0 (str_split txt (CHR ''.''))"


section \<open>Tone analysis\<close>

text \<open>
  \<open>sentiment_analyzer\<close> is a module-level value, \<open>None\<close> when the transformers
  pipeline could not be loaded; \<open>analyze_tone\<close> only tests it, so the model takes its
  truth value as a parameter.
\<close>

record tone_profile =
  overall_sentiment :: string
  formality_score :: py_number
  assertiveness_score :: py_number
  risk_tone :: string

definition formal_indicators :: "string list" where
  "formal_indicators = [''shall'', ''hereby'', ''whereas'', ''pursuant'', ''notwithstanding'']"

definition assertive_indicators :: "string list" where
  "assertive_indicators = [''must'', ''required'', ''mandatory'', ''obligation'', ''duty'']"

definition risky_indicators :: "string list" where
  "risky_indicators = [''penalty'', ''breach'', ''default'', ''terminate'', ''void'']"

fun tone_counts :: "int \<times> int \<times> int \<Rightarrow> string list \<Rightarrow> int \<times> int \<times> int" where
  \<comment> \<open>the loop over the sampled sentences, on the three running totals\<close>
  "tone_counts (formality, assertiveness, risk) [] = (formality, assertiveness, risk)"
| "tone_counts (formality, assertiveness, risk) (sentence # rest) =
     (let sentence_lower = lower sentence
      in tone_counts
           (formality + int (count_present formal_indicators sentence_lower),
            assertiveness + int (count_present assertive_indicators sentence_lower),
            risk + int (count_present risky_indicators sentence_lower))
           rest)"

definition normalize :: "int \<Rightarrow> int \<Rightarrow> py_error + py_number" where
  "normalize score max_score =
     (case true_div score max_score of
        Inl e \<Rightarrow> Inl e
      | Inr q \<Rightarrow> Inr (py_min (float_mul_int q 10) 10))"

definition analyze_tone :: "bool \<Rightarrow> string \<Rightarrow> py_error + tone_profile" where
  "analyze_tone sentiment_analyzer txt =
     (if \<not> sentiment_analyzer
      then Inr \<lparr>overall_sentiment = ''neutral'', formality_score = PyInt 7,
                assertiveness_score = PyInt 5, risk_tone = ''moderate''\<rparr>
      else
        (let sentences = take 10 (str_split txt (CHR ''.''));
             (formality, assertiveness, risk_tone_score) = tone_counts (0, 0, 0) sentences;
             max_score = int (length sentences)
         in case normalize formality max_score of
              Inl e \<Rightarrow> Inl e
            | Inr formality_norm \<Rightarrow>
               (case normalize assertiveness max_score of
                  Inl e \<Rightarrow> Inl e
                | Inr assertiveness_norm \<Rightarrow>
                    Inr \<lparr>overall_sentiment = ''formal'',
                         formality_score = py_round formality_norm 1,
                         assertiveness_score = py_round assertiveness_norm 1,
                         risk_tone = (if risk_tone_score < 2 then ''low''
                                      else if risk_tone_score < 5 then ''moderate''
                                      else ''high'')\<rparr>)))"

section \<open>Statistics of \<open>analyze_document\<close>\<close>

definition avg_importance_score :: "clause list \<Rightarrow> py_error + py_number" where
  "avg_importance_score clauses =
     (if clauses \<noteq> []
      then (case true_div (sum_list (map importance_score clauses)) (int (length clauses)) of
              Inl e \<Rightarrow> Inl e
            | Inr mean \<Rightarrow> Inr (py_round (PyFloat mean) 2))
      else Inr (PyInt 0))"

section \<open>Document comparison\<close>

text \<open>
  \<open>compare_documents\<close> turns each set of types into a list with \<open>list(...)\<close>, whose
  order Python leaves open; the record keeps the sets.
\<close>

record comparison =
  doc1_unique_clauses :: "clause list"
  doc2_unique_clauses :: "clause list"
  common_clauses :: "clause list"
  differences :: "string list"
  doc1_unique_types :: "string set"
  doc2_unique_types :: "string set"
  common_types :: "string set"

fun add_types :: "string set \<Rightarrow> clause list \<Rightarrow> string set" where
  "add_types doc_types [] = doc_types"
| "add_types doc_types (c # rest) = add_types (fold insert (clause_types c) doc_types) rest"

definition compare_documents :: "string \<Rightarrow> string \<Rightarrow> comparison" where
  "compare_documents doc1_text doc2_text =
     (let doc1_clauses = classify_clauses doc1_text;
          doc2_clauses = classify_clauses doc2_text;
          doc1_types = add_types {} doc1_clauses;
          doc2_types = add_types {} doc2_clauses
      in \<lparr>doc1_unique_clauses = [], doc2_unique_clauses = [], common_clauses = [],
          differences = [],
          doc1_unique_types = doc1_types - doc2_types,
          doc2_unique_types = doc2_types - doc1_types,
          common_types = doc1_types \<inter> doc2_types\<rparr>)"


section \<open>Facts about the string functions and the loops\<close>

lemma starts_with_prefix: "starts_with k s = prefix k s"
  by (induction k s rule: starts_with.induct) simp_all

lemma str_in_sublist: "str_in k s = sublist k s"
proof (induction s)
  case Nil
  show ?case by (simp add: starts_with_prefix)
next
  case (Cons c cs)
  show ?case
  proof (cases k)
    case Nil
    then show ?thesis by simp
  next
    case (Cons a as)
    with Cons.IH show ?thesis by (simp add: starts_with_prefix sublist_Cons_right)
  qed
qed

lemma count_present_card:
  "distinct ks \<Longrightarrow> count_present ks s = card {k \<in> set ks. sublist k s}"
  unfolding count_present_def str_in_sublist
  by (simp add: distinct_length_filter Int_def conj_commute)

lemma split_from_nonempty: "split_from sep cur s \<noteq> []"
  by (induction s arbitrary: cur) simp_all

lemma length_classify_from: "length (classify_from i ss) \<le> length ss"
  by (induction ss arbitrary: i) (auto simp: Let_def le_SucI)

lemma add_important_eq:
  "add_important b ts = b + 2 * int (length (filter (\<lambda>t. t \<in> set important_types) ts))"
  by (induction ts arbitrary: b) simp_all

lemma classify_from_member:
  "c \<in> set (classify_from i ss) \<Longrightarrow>
     \<exists>j < length ss. clause_id c = i + j \<and> position c = i + j \<and>
        20 \<le> length (strip (ss ! j)) \<and>
        clause_text c = strip (ss ! j) \<and>
        clause_types c = matched_types (lower (ss ! j)) \<and> clause_types c \<noteq> [] \<and>
        risk_level c = assess_risk_level (ss ! j) \<and>
        importance_score c = calculate_importance_score (ss ! j) (clause_types c)"
proof (induction ss arbitrary: i)
  case Nil
  then show ?case by simp
next
  case (Cons s ss)
  let ?new = "\<lparr>clause_id = i, clause_text = strip s, clause_types = matched_types (lower s),
                 risk_level = assess_risk_level s,
                 importance_score = calculate_importance_score s (matched_types (lower s)),
                 position = i\<rparr>"
  from Cons.prems consider
      (here) "c = ?new" "20 \<le> length (strip s)" "matched_types (lower s) \<noteq> []"
    | (later) "c \<in> set (classify_from (Suc i) ss)"
    by (auto simp: Let_def split: if_splits)
  then show ?case
  proof cases
    case here
    then show ?thesis by (intro exI[of _ 0]) simp
  next
    case later
    from Cons.IH[OF later] obtain j where "j < length ss" and
      "clause_id c = Suc i + j \<and> position c = Suc i + j \<and>
        20 \<le> length (strip (ss ! j)) \<and>
        clause_text c = strip (ss ! j) \<and>
        clause_types c = matched_types (lower (ss ! j)) \<and> clause_types c \<noteq> [] \<and>
        risk_level c = assess_risk_level (ss ! j) \<and>
        importance_score c = calculate_importance_score (ss ! j) (clause_types c)"
      by blast
    then show ?thesis by (intro exI[of _ "Suc j"]) auto
  qed
qed

lemma calculate_importance_score_range:
  "5 \<le> calculate_importance_score s ts \<and> calculate_importance_score s ts \<le> 10"
  by (simp add: calculate_importance_score_def Let_def add_important_eq min_def)


lemma str_split_nonempty: "str_split s sep \<noteq> []"
  by (simp add: str_split_def split_from_nonempty)

lemma classify_clauses_member:
  assumes "c \<in> set (classify_clauses txt)"
  shows "clause_id c < length (str_split txt (CHR ''.'')) \<and> position c = clause_id c \<and>
        20 \<le> length (strip (str_split txt (CHR ''.'') ! clause_id c)) \<and>
        clause_text c = strip (str_split txt (CHR ''.'') ! clause_id c) \<and>
        clause_types c = matched_types (lower (str_split txt (CHR ''.'') ! clause_id c)) \<and>
        clause_types c \<noteq> [] \<and>
        risk_level c = assess_risk_level (str_split txt (CHR ''.'') ! clause_id c) \<and>
        importance_score c =
          calculate_importance_score (str_split txt (CHR ''.'') ! clause_id c) (clause_types c)"
  using classify_from_member[OF assms[unfolded classify_clauses_def]] by auto

lemma distinct_tables:
  "distinct risk_keywords_high" "distinct risk_keywords_medium" "distinct risk_keywords_low"
  "distinct (map lower legal_keywords)" "distinct (map fst clause_patterns)"
  "distinct boilerplate_patterns"
  by (simp_all add: risk_keywords_high_def risk_keywords_medium_def risk_keywords_low_def
        legal_keywords_def clause_patterns_def boilerplate_patterns_def lower_def char_lower_def)

lemma distinct_matched_types: "distinct (matched_types s)"
  unfolding matched_types_def by (rule distinct_map_filter) (rule distinct_tables)


lemma first_pattern_Some:
  "first_pattern ps s = Some p \<longleftrightarrow>
     (\<exists>before after. ps = before @ p # after \<and> sublist p s \<and> (\<forall>q \<in> set before. \<not> sublist q s))"
proof (induction ps)
  case Nil
  then show ?case by simp
next
  case (Cons a ps)
  show ?case
  proof (cases "sublist a s")
    case True
    have "(\<exists>before after. a # ps = before @ p # after \<and> sublist p s \<and> (\<forall>q \<in> set before. \<not> sublist q s))
          \<longleftrightarrow> a = p"
    proof
      assume "\<exists>before after. a # ps = before @ p # after \<and> sublist p s \<and> (\<forall>q \<in> set before. \<not> sublist q s)"
      then obtain before after where e: "a # ps = before @ p # after"
        and n: "\<forall>q \<in> set before. \<not> sublist q s" by blast
      show "a = p"
      proof (cases before)
        case Nil with e show ?thesis by simp
      next
        case (Cons b bs)
        with e have "b = a" by simp
        with Cons n True show ?thesis by simp
      qed
    next
      assume "a = p"
      with True have "a # ps = [] @ p # ps \<and> sublist p s \<and> (\<forall>q \<in> set []. \<not> sublist q s)" by simp
      then show "\<exists>before after. a # ps = before @ p # after \<and> sublist p s \<and> (\<forall>q \<in> set before. \<not> sublist q s)"
        by blast
    qed
    with True show ?thesis by (simp add: re_search_def str_in_sublist)
  next
    case False
    have "(\<exists>before after. a # ps = before @ p # after \<and> sublist p s \<and> (\<forall>q \<in> set before. \<not> sublist q s))
          \<longleftrightarrow> (\<exists>before after. ps = before @ p # after \<and> sublist p s \<and> (\<forall>q \<in> set before. \<not> sublist q s))"
    proof
      assume "\<exists>before after. a # ps = before @ p # after \<and> sublist p s \<and> (\<forall>q \<in> set before. \<not> sublist q s)"
      then obtain before after where e: "a # ps = before @ p # after" and p: "sublist p s"
        and n: "\<forall>q \<in> set before. \<not> sublist q s" by blast
      show "\<exists>before after. ps = before @ p # after \<and> sublist p s \<and> (\<forall>q \<in> set before. \<not> sublist q s)"
      proof (cases before)
        case Nil with e p False show ?thesis by simp
      next
        case (Cons b bs)
        with e n p have "ps = bs @ p # after \<and> sublist p s \<and> (\<forall>q \<in> set bs. \<not> sublist q s)" by simp
        then show ?thesis by blast
      qed
    next
      assume "\<exists>before after. ps = before @ p # after \<and> sublist p s \<and> (\<forall>q \<in> set before. \<not> sublist q s)"
      then obtain before after where "ps = before @ p # after" "sublist p s"
        "\<forall>q \<in> set before. \<not> sublist q s" by blast
      with False have "a # ps = (a # before) @ p # after \<and> sublist p s \<and> (\<forall>q \<in> set (a # before). \<not> sublist q s)"
        by simp
      then show "\<exists>before after. a # ps = before @ p # after \<and> sublist p s \<and> (\<forall>q \<in> set before. \<not> sublist q s)"
        by blast
    qed
    with False Cons.IH show ?thesis by (simp add: re_search_def str_in_sublist)
  qed
qed

lemma first_pattern_None:
  "first_pattern ps s = None \<longleftrightarrow> (\<forall>p \<in> set ps. \<not> sublist p s)"
  by (induction ps) (simp_all add: re_search_def str_in_sublist)

lemma detect_from_ids:
  "map bp_id (detect_from i ss) =
     map (\<lambda>j. i + j) (filter (\<lambda>j. \<exists>p \<in> set boilerplate_patterns. sublist p (lower (ss ! j)))
                              [0..<length ss])"
proof (induction ss arbitrary: i)
  case Nil
  then show ?case by simp
next
  case (Cons s ss)
  have shift: "[0..<length (s # ss)] = 0 # map Suc [0..<length ss]"
    by (simp add: upt_conv_Cons map_Suc_upt del: upt_Suc)
  have tail: "map ((+) i) (filter (\<lambda>j. \<exists>p \<in> set boilerplate_patterns. sublist p (lower ((s # ss) ! j)))
                 (map Suc [0..<length ss]))
      = map ((+) (Suc i)) (filter (\<lambda>j. \<exists>p \<in> set boilerplate_patterns. sublist p (lower (ss ! j)))
                 [0..<length ss])"
    by (simp add: filter_map comp_def)
  show ?case
  proof (cases "first_pattern boilerplate_patterns (lower s)")
    case None
    then have "\<not> (\<exists>p \<in> set boilerplate_patterns. sublist p (lower s))"
      by (simp add: first_pattern_None)
    with None show ?thesis unfolding shift using tail by (simp add: Cons.IH)
  next
    case (Some p)
    then have "\<exists>p \<in> set boilerplate_patterns. sublist p (lower s)"
      by (metis first_pattern_None option.distinct(1))
    with Some show ?thesis unfolding shift using tail by (simp add: Cons.IH)
  qed
qed

lemma detect_from_member:
  "m \<in> set (detect_from i ss) \<Longrightarrow>
     \<exists>j < length ss. bp_id m = i + j \<and> bp_text m = strip (ss ! j) \<and> confidence m = binary64 (8 / 10) \<and>
        first_pattern boilerplate_patterns (lower (ss ! j)) = Some (pattern_matched m)"
proof (induction ss arbitrary: i)
  case Nil
  then show ?case by simp
next
  case (Cons s ss)
  from Cons.prems consider
      (here) "first_pattern boilerplate_patterns (lower s) = Some (pattern_matched m)"
             "bp_id m = i" "bp_text m = strip s" "confidence m = binary64 (8 / 10)"
    | (later) "m \<in> set (detect_from (Suc i) ss)"
    by (auto split: option.splits)
  then show ?case
  proof cases
    case here
    then show ?thesis by (intro exI[of _ 0]) simp
  next
    case later
    from Cons.IH[OF later] obtain j where "j < length ss" "bp_id m = Suc i + j"
      "bp_text m = strip (ss ! j)" "confidence m = binary64 (8 / 10)"
      "first_pattern boilerplate_patterns (lower (ss ! j)) = Some (pattern_matched m)"
      by blast
    then show ?thesis by (intro exI[of _ "Suc j"]) simp
  qed
qed

lemma timeline_from_ids:
  "map sentence_id (timeline_from findall dps urps i ss) =
     map (\<lambda>j. i + j)
       (filter (\<lambda>j. concat (map (\<lambda>p. findall p (ss ! j)) dps) \<noteq> []
                   \<or> concat (map (\<lambda>p. findall p (ss ! j)) urps) \<noteq> []
                   \<or> (\<exists>k \<in> set deadline_keywords. sublist (lower k) (lower (ss ! j))))
               [0..<length ss])"
proof (induction ss arbitrary: i)
  case Nil
  then show ?case by simp
next
  case (Cons s ss)
  have shift: "[0..<length (s # ss)] = 0 # map Suc [0..<length ss]"
    by (simp add: upt_conv_Cons map_Suc_upt del: upt_Suc)
  have dl: "(filter (\<lambda>keyword. str_in (lower keyword) (lower s)) deadline_keywords \<noteq> [])
             = (\<exists>k \<in> set deadline_keywords. sublist (lower k) (lower s))"
    by (simp add: filter_empty_conv str_in_sublist)
  show ?case
    unfolding shift
    by (simp add: Let_def Cons.IH filter_map comp_def dl del: upt_Suc)
qed

section \<open>Facts about binary64 rounding\<close>

lemma round_half_even_close: "\<bar>of_int (round_half_even q) - q\<bar> \<le> 1 / 2"
proof -
  have l: "of_int \<lfloor>q\<rfloor> \<le> q" and u: "q < of_int \<lfloor>q\<rfloor> + 1" by linarith+
  consider (lo) "q - of_int \<lfloor>q\<rfloor> < 1 / 2" | (hi) "1 / 2 < q - of_int \<lfloor>q\<rfloor>"
    | (tie) "q - of_int \<lfloor>q\<rfloor> = 1 / 2" by linarith
  then show ?thesis
  proof cases
    case lo
    then have "round_half_even q = \<lfloor>q\<rfloor>" by (simp add: round_half_even_def Let_def)
    with lo l show ?thesis by simp
  next
    case hi
    then have "round_half_even q = \<lfloor>q\<rfloor> + 1" by (simp add: round_half_even_def Let_def)
    with hi u show ?thesis by simp
  next
    case tie
    then have "round_half_even q = \<lfloor>q\<rfloor> \<or> round_half_even q = \<lfloor>q\<rfloor> + 1"
      by (simp add: round_half_even_def Let_def)
    with tie show ?thesis by auto
  qed
qed

lemma floor_log2_lower:
  assumes "0 < q"
  shows "2 powi (floor_log2 q) \<le> q"
proof -
  obtain a b where ab: "quotient_of q = (a, b)" by (cases "quotient_of q")
  then have b: "0 < b" and q: "q = of_int a / of_int b"
    using quotient_of_denom_pos quotient_of_div by blast+
  from assms q b have a: "0 < a" by (simp add: zero_less_divide_iff)
  define d where "d = bitlen a - bitlen b"
  show ?thesis
  proof (cases "2 powi d \<le> q")
    case True
    then show ?thesis by (simp add: floor_log2_def ab d_def)
  next
    case False
    have la: "(2::rat) ^ nat (bitlen a - 1) \<le> of_int a"
      using bitlen_bounds[OF a] by (metis of_int_le_iff of_int_numeral of_int_power)
    have lb: "of_int b < (2::rat) ^ nat (bitlen b)"
      using bitlen_bounds[OF b] by (metis of_int_less_iff of_int_numeral of_int_power)
    have la1: "1 \<le> bitlen a" using a by (simp add: bitlen_alt_def)
    have lb0: "0 \<le> bitlen b" by (rule bitlen_nonneg)
    have dd: "d - 1 = (bitlen a - 1) - bitlen b" by (simp add: d_def)
    have pa: "(2::rat) powi (bitlen a - 1) = 2 ^ nat (bitlen a - 1)"
      using la1 by (simp add: power_int_def)
    have pb: "(2::rat) powi (bitlen b) = 2 ^ nat (bitlen b)"
      using lb0 by (simp add: power_int_def)
    have "(2::rat) powi (d - 1) = 2 ^ nat (bitlen a - 1) / 2 ^ nat (bitlen b)"
      unfolding dd by (subst power_int_diff) (simp_all add: pa pb)
    also have "\<dots> \<le> of_int a / 2 ^ nat (bitlen b)"
      using la by (simp add: divide_right_mono)
    also have "\<dots> \<le> of_int a / of_int b"
      using lb a b by (simp add: frac_le)
    finally have "2 powi (d - 1) \<le> q" using q by simp
    with False show ?thesis by (simp add: floor_log2_def ab d_def)
  qed
qed

lemma binary64_close:
  assumes "0 \<le> q" "q < 16"
  shows "\<bar>binary64 q - q\<bar> \<le> 1 / 2 ^ 50"
proof (cases "q = 0")
  case True
  then show ?thesis by (simp add: binary64_def)
next
  case False
  with assms have pos: "0 < q" by simp
  define e where "e = max (floor_log2 \<bar>q\<bar>) (- 1022)"
  define ulp :: rat where "ulp = 2 powi (e - 52)"
  have "(2::rat) powi (floor_log2 q) < 2 powi 4"
    using floor_log2_lower[OF pos] assms(2) by simp
  then have "floor_log2 q < 4"
    by (rule power_int_le_imp_less_exp[rotated]) simp_all
  with pos have e: "e \<le> 3" by (simp add: e_def)
  have ulp_pos: "0 < ulp" by (simp add: ulp_def)
  have "ulp \<le> 2 powi (- 49)"
    unfolding ulp_def using e by (intro power_int_increasing) simp_all
  then have ulp_le: "ulp \<le> 1 / 2 ^ 49" by (simp add: power_int_minus field_simps)
  have b: "binary64 q = of_int (round_half_even (q / ulp)) * ulp"
    using False by (simp add: binary64_def Let_def e_def ulp_def)
  have "binary64 q - q = (of_int (round_half_even (q / ulp)) - q / ulp) * ulp"
    unfolding b using ulp_pos by (simp add: left_diff_distrib)
  then have "\<bar>binary64 q - q\<bar> = \<bar>of_int (round_half_even (q / ulp)) - q / ulp\<bar> * ulp"
    using ulp_pos by (simp add: abs_mult)
  also have "\<dots> \<le> (1 / 2) * ulp"
    using round_half_even_close[of "q / ulp"] ulp_pos by (intro mult_right_mono) simp_all
  also have "\<dots> \<le> 1 / 2 ^ 50" using ulp_le by simp
  finally show ?thesis .
qed

section \<open>Facts about the tone loop and the divisions\<close>

lemma count_present_le: "count_present ks s \<le> length ks"
  by (simp add: count_present_def)

lemma tone_counts_bounds:
  "tone_counts (f, a, r) ss = (f', a', r') \<Longrightarrow>
     f \<le> f' \<and> f' \<le> f + 5 * int (length ss) \<and> a \<le> a' \<and> a' \<le> a + 5 * int (length ss)"
proof (induction ss arbitrary: f a r)
  case Nil
  then show ?case by simp
next
  case (Cons s ss)
  have c1: "int (count_present formal_indicators (lower s)) \<le> 5"
    using count_present_le[of formal_indicators "lower s"] by (simp add: formal_indicators_def)
  have c2: "int (count_present assertive_indicators (lower s)) \<le> 5"
    using count_present_le[of assertive_indicators "lower s"]
    by (simp add: assertive_indicators_def)
  from Cons.prems have
    "tone_counts (f + int (count_present formal_indicators (lower s)),
                  a + int (count_present assertive_indicators (lower s)),
                  r + int (count_present risky_indicators (lower s))) ss = (f', a', r')"
    by (simp add: Let_def)
  from Cons.IH[OF this] c1 c2 show ?case by simp
qed

lemma true_div_small:
  assumes "0 \<le> t" "t \<le> 10 * n" "0 < n"
  shows "true_div t n = Inr (binary64 (of_int t / of_int n))"
    and "\<bar>binary64 (of_int t / of_int n) - of_int t / of_int n\<bar> \<le> 1 / 2 ^ 50"
proof -
  let ?q = "(of_int t / of_int n) :: rat"
  have q0: "0 \<le> ?q" using assms by simp
  have "of_int t \<le> (10::rat) * of_int n"
    using assms(2) by (metis of_int_le_iff of_int_mult of_int_numeral)
  then have q10: "?q \<le> 10" using assms(3) by (simp add: pos_divide_le_eq)
  then have "?q < 16" by simp
  from binary64_close[OF q0 this]
  show close: "\<bar>binary64 ?q - ?q\<bar> \<le> 1 / 2 ^ 50" .
  have "(1::rat) / 2 ^ 50 \<le> 1" by simp
  with close q0 q10 have "\<bar>binary64 ?q\<bar> \<le> 11" by linarith
  moreover have "(11::rat) < 2 ^ 1024" by simp
  ultimately have "\<not> (2::rat) ^ 1024 \<le> \<bar>binary64 ?q\<bar>" by linarith
  with assms(3) show "true_div t n = Inr (binary64 ?q)"
    by (simp add: true_div_def Let_def)
qed

lemma normalize_returns:
  assumes "0 \<le> t" "t \<le> 5 * n" "0 < n"
  shows "\<exists>v. normalize t n = Inr v"
proof -
  from assms have "t \<le> 10 * n" by simp
  from true_div_small(1)[OF assms(1) this assms(3)] show ?thesis
    by (simp add: normalize_def)
qed

lemma sampled_nonempty: "1 \<le> length (take 10 (str_split txt (CHR ''.'')))"
proof -
  have "str_split txt (CHR ''.'') \<noteq> []" by (rule str_split_nonempty)
  then have "1 \<le> length (str_split txt (CHR ''.''))" by (cases "str_split txt (CHR ''.'')") simp_all
  then show ?thesis by simp
qed

lemma analyze_tone_available:
  "\<exists>f a r. analyze_tone True txt =
     Inr \<lparr>overall_sentiment = ''formal'', formality_score = f, assertiveness_score = a,
          risk_tone = r\<rparr>"
proof -
  let ?ss = "take 10 (str_split txt (CHR ''.''))"
  obtain f a r where tc: "tone_counts (0, 0, 0) ?ss = (f, a, r)"
    by (cases "tone_counts (0, 0, 0) ?ss") blast
  from tone_counts_bounds[OF tc]
  have b: "0 \<le> f" "f \<le> 5 * int (length ?ss)" "0 \<le> a" "a \<le> 5 * int (length ?ss)" by simp_all
  have "1 \<le> length ?ss" by (rule sampled_nonempty)
  then have n: "0 < int (length ?ss)" by linarith
  from normalize_returns[OF b(1) b(2) n] obtain fv where fv: "normalize f (int (length ?ss)) = Inr fv" ..
  from normalize_returns[OF b(3) b(4) n] obtain av where av: "normalize a (int (length ?ss)) = Inr av" ..
  show ?thesis
    by (simp add: analyze_tone_def Let_def tc fv av del: length_take)
qed

section \<open>Risk assessment\<close>

lemma risk_may_may_shall:
  "assess_risk_level ''may may shall'' = ''low''"
  "spec_tier_count risk_keywords_high (lower ''may may shall'') = 0"
  "spec_tier_count risk_keywords_medium (lower ''may may shall'') = 2"
  "spec_tier_count risk_keywords_low (lower ''may may shall'') = 1"
  by code_simp+

text \<open>
  C1, as stated, fails. On the segment \<open>may may shall\<close> no high-tier keyword occurs,
  the medium tier has two occurrences (\<open>may\<close> twice) and the low tier one (\<open>shall\<close>),
  so the rule on occurrence counts answers \<open>medium\<close>; \<open>_assess_risk_level\<close> answers
  \<open>low\<close>, because each keyword adds at most one to the count of its tier.
\<close>

theorem assess_risk_level_occurrences_counterexample:
  "spec_tier_count risk_keywords_high (lower ''may may shall'') = 0
   \<and> spec_tier_count risk_keywords_medium (lower ''may may shall'')
       > spec_tier_count risk_keywords_low (lower ''may may shall'')
   \<and> spec_assess_risk ''may may shall'' = ''medium''
   \<and> assess_risk_level ''may may shall'' = ''low''"
  by (simp add: risk_may_may_shall spec_assess_risk_def)

text \<open>
  C1, amended. The count of a tier is the number of its keywords that occur in the
  lower-cased text at least once. The result is \<open>high\<close> exactly when some high-tier
  keyword occurs; \<open>medium\<close> exactly when none does and more medium-tier keywords than
  low-tier keywords occur; \<open>low\<close> exactly when none does and the medium-tier keywords
  that occur are at most as many as the low-tier ones (ties included).
\<close>

theorem assess_risk_level_presence:
  "(assess_risk_level txt = ''high'' \<longleftrightarrow>
      (\<exists>k \<in> set risk_keywords_high. sublist k (lower txt)))
   \<and> (assess_risk_level txt = ''medium'' \<longleftrightarrow>
      \<not> (\<exists>k \<in> set risk_keywords_high. sublist k (lower txt))
      \<and> card {k \<in> set risk_keywords_medium. sublist k (lower txt)}
          > card {k \<in> set risk_keywords_low. sublist k (lower txt)})
   \<and> (assess_risk_level txt = ''low'' \<longleftrightarrow>
      \<not> (\<exists>k \<in> set risk_keywords_high. sublist k (lower txt))
      \<and> card {k \<in> set risk_keywords_medium. sublist k (lower txt)}
          \<le> card {k \<in> set risk_keywords_low. sublist k (lower txt)})"
proof -
  have high: "(0 < count_present risk_keywords_high (lower txt))
                = (\<exists>k \<in> set risk_keywords_high. sublist k (lower txt))"
    by (auto simp: count_present_def str_in_sublist filter_empty_conv)
  show ?thesis
    unfolding high[symmetric]
      count_present_card[OF distinct_tables(2), symmetric]
      count_present_card[OF distinct_tables(3), symmetric]
    by (auto simp: assess_risk_level_def Let_def)
qed

lemma count_present_may:
  "count_present risk_keywords_high (lower ''The buyer may pay'') = 0"
  "count_present risk_keywords_medium (lower ''The buyer may pay'') = 1"
  "count_present risk_keywords_low (lower ''The buyer may pay'') = 0"
  by code_simp+

text \<open>
  C1, witness: in \<open>The buyer may pay\<close> no high-tier keyword occurs, one medium-tier
  keyword does and no low-tier one, and the result is \<open>medium\<close>.
\<close>

theorem assess_risk_level_presence_witness:
  "\<not> (\<exists>k \<in> set risk_keywords_high. sublist k (lower ''The buyer may pay''))
   \<and> card {k \<in> set risk_keywords_medium. sublist k (lower ''The buyer may pay'')}
          > card {k \<in> set risk_keywords_low. sublist k (lower ''The buyer may pay'')}
   \<and> assess_risk_level ''The buyer may pay'' = ''medium''"
proof -
  have m: "assess_risk_level ''The buyer may pay'' = ''medium''"
    by (simp add: assess_risk_level_def Let_def count_present_may)
  from m assess_risk_level_presence[of "''The buyer may pay''"] show ?thesis by blast
qed

section \<open>Clause classification\<close>

lemma scenario_clauses:
  "classify_clauses scenario_text =
     [\<lparr>clause_id = 0, clause_text = ''This Agreement shall terminate after 30 days'',
       clause_types = [''termination''], risk_level = ''low'', importance_score = 8,
       position = 0\<rparr>,
      \<lparr>clause_id = 1, clause_text = ''The Client shall pay a penalty fee for any breach'',
       clause_types = [''payment''], risk_level = ''high'', importance_score = 9,
       position = 1\<rparr>]"
  by code_simp

text \<open>
  C2, as stated, fails on the second segment: its category tags are not
  \<open>{payment, liability}\<close>. No pattern of \<open>liability\<close> is \<open>breach\<close>, and none of the
  five occurs in the segment.
\<close>

theorem scenario_second_segment_counterexample:
  "set (clause_types (classify_clauses scenario_text ! 1)) \<noteq> {''payment'', ''liability''}"
  by (simp add: scenario_clauses)

text \<open>
  C2, amended. The scenario text splits into three segments, the last one empty.
  Classification yields two records: segment 0 with tags \<open>{termination}\<close> and risk
  \<open>low\<close>, segment 1 with tags \<open>{payment}\<close> (from \<open>fee\<close>) and risk \<open>high\<close>.
\<close>

theorem scenario_classification:
  "map (\<lambda>c. (clause_id c, set (clause_types c), risk_level c)) (classify_clauses scenario_text)
     = [(0, {''termination''}, ''low''), (1, {''payment''}, ''high'')]
   \<and> str_split scenario_text (CHR ''.'')
     = [''This Agreement shall terminate after 30 days'',
        '' The Client shall pay a penalty fee for any breach'', '''']"
  by (simp add: scenario_clauses) (simp add: scenario_text_def str_split_def)

text \<open>
  C9. Classification never yields more records than the split on the period yields
  segments.
\<close>

theorem classify_clauses_length:
  "length (classify_clauses txt) \<le> length (str_split txt (CHR ''.''))"
  unfolding classify_clauses_def by (rule length_classify_from)

text \<open>
  C4. Every record of a classification has an importance score between 1 and 10: it is
  5, plus 2 for each of its tags among liability, payment, termination and
  intellectual_property, plus 1 when the raw segment is longer than 200 characters, plus
  the number of legal keywords that occur in the lower-cased segment but at most 3, the
  whole capped at 10.
\<close>

theorem importance_score_range:
  "\<forall>c \<in> set (classify_clauses txt).
     importance_score c =
       min (5 + 2 * int (card (set (clause_types c) \<inter>
                  {''liability'', ''payment'', ''termination'', ''intellectual_property''}))
              + (if length (str_split txt (CHR ''.'') ! clause_id c) > 200 then 1 else 0)
              + min (int (card {k \<in> {''shall'', ''liable'', ''damages'', ''breach'', ''default''}.
                               sublist k (lower (str_split txt (CHR ''.'') ! clause_id c))})) 3)
           10
     \<and> 1 \<le> importance_score c \<and> importance_score c \<le> 10"
proof
  fix c assume c: "c \<in> set (classify_clauses txt)"
  let ?s = "str_split txt (CHR ''.'') ! clause_id c"
  from classify_clauses_member[OF c]
  have score: "importance_score c = calculate_importance_score ?s (clause_types c)"
    and types: "clause_types c = matched_types (lower ?s)" by simp_all
  have d: "distinct (clause_types c)" unfolding types by (rule distinct_matched_types)
  have tags: "length (filter (\<lambda>t. t \<in> set important_types) (clause_types c))
      = card (set (clause_types c) \<inter>
                {''liability'', ''payment'', ''termination'', ''intellectual_property''})"
  proof -
    have "{t. t \<in> set important_types} \<inter> set (clause_types c)
        = set (clause_types c) \<inter>
                {''liability'', ''payment'', ''termination'', ''intellectual_property''}"
      by (auto simp: important_types_def)
    with d show ?thesis by (simp add: distinct_length_filter)
  qed
  have low: "map lower legal_keywords = legal_keywords"
    by (simp add: legal_keywords_def lower_def char_lower_def)
  have kws: "count_present (map lower legal_keywords) (lower ?s)
      = card {k \<in> {''shall'', ''liable'', ''damages'', ''breach'', ''default''}. sublist k (lower ?s)}"
    unfolding count_present_card[OF distinct_tables(4)] unfolding low
    by (simp add: legal_keywords_def)
  have eq: "importance_score c =
       min (5 + 2 * int (card (set (clause_types c) \<inter>
                  {''liability'', ''payment'', ''termination'', ''intellectual_property''}))
              + (if length ?s > 200 then 1 else 0)
              + min (int (card {k \<in> {''shall'', ''liable'', ''damages'', ''breach'', ''default''}.
                               sublist k (lower ?s)})) 3)
           10"
    unfolding score calculate_importance_score_def Let_def add_important_eq tags kws by simp
  from calculate_importance_score_range[of ?s "clause_types c"] score
  have "1 \<le> importance_score c \<and> importance_score c \<le> 10" by simp
  with eq show "importance_score c =
       min (5 + 2 * int (card (set (clause_types c) \<inter>
                  {''liability'', ''payment'', ''termination'', ''intellectual_property''}))
              + (if length (str_split txt (CHR ''.'') ! clause_id c) > 200 then 1 else 0)
              + min (int (card {k \<in> {''shall'', ''liable'', ''damages'', ''breach'', ''default''}.
                               sublist k (lower (str_split txt (CHR ''.'') ! clause_id c))})) 3)
           10
     \<and> 1 \<le> importance_score c \<and> importance_score c \<le> 10" by blast
qed

text \<open>
  C4, witness: the first record of the scenario text.
\<close>

theorem importance_score_range_witness:
  "classify_clauses scenario_text ! 0 \<in> set (classify_clauses scenario_text)
   \<and> importance_score (classify_clauses scenario_text ! 0) = 8
   \<and> 1 \<le> importance_score (classify_clauses scenario_text ! 0)
   \<and> importance_score (classify_clauses scenario_text ! 0) \<le> 10"
proof -
  have m: "classify_clauses scenario_text ! 0 \<in> set (classify_clauses scenario_text)"
    by (simp add: scenario_clauses)
  have v: "importance_score (classify_clauses scenario_text ! 0) = 8"
    by (simp add: scenario_clauses)
  from importance_score_range[of scenario_text] m v show ?thesis by blast
qed

section \<open>Document comparison is symmetric\<close>

text \<open>
  C5. Swapping the two documents leaves the common types unchanged and exchanges the two
  sets of unique types.
\<close>

theorem compare_documents_swap:
  "common_types (compare_documents a b) = common_types (compare_documents b a)
   \<and> doc1_unique_types (compare_documents a b) = doc2_unique_types (compare_documents b a)
   \<and> doc2_unique_types (compare_documents a b) = doc1_unique_types (compare_documents b a)"
  by (simp add: compare_documents_def Let_def Int_commute)

section \<open>Tone analysis\<close>

text \<open>
  C8. With the sentiment backend available, \<open>analyze_tone\<close> returns on every text, and
  the profile it returns has \<open>overall_sentiment\<close> equal to the label \<open>formal\<close>, whatever
  the formality score, the assertiveness score and the risk tone computed from the text.
\<close>

theorem analyze_tone_overall_sentiment_fixed:
  "\<exists>f a r. analyze_tone True txt =
     Inr \<lparr>overall_sentiment = ''formal'', formality_score = f, assertiveness_score = a,
          risk_tone = r\<rparr>"
  by (rule analyze_tone_available)

text \<open>
  C10. Splitting any string on any separator yields at least one segment (the empty
  string yields the one empty segment), so the sample of at most ten segments has at
  least one, and \<open>analyze_tone\<close> returns a profile on every text, with or without the
  backend: neither division raises.
\<close>

theorem analyze_tone_never_divides_by_zero:
  "str_split s sep \<noteq> []
   \<and> str_split '''' (CHR ''.'') = ['''']
   \<and> 1 \<le> length (take 10 (str_split txt (CHR ''.'')))
   \<and> (\<exists>profile. analyze_tone sentiment_analyzer txt = Inr profile)"
proof -
  have "\<exists>profile. analyze_tone sentiment_analyzer txt = Inr profile"
  proof (cases sentiment_analyzer)
    case True
    from analyze_tone_available[of "txt"] obtain f a r where
      "analyze_tone True txt =
         Inr \<lparr>overall_sentiment = ''formal'', formality_score = f, assertiveness_score = a,
              risk_tone = r\<rparr>" by blast
    with True show ?thesis by simp
  next
    case False
    then show ?thesis by (simp add: analyze_tone_def)
  qed
  moreover have "str_split '''' (CHR ''.'') = ['''']" by (simp add: str_split_def)
  ultimately show ?thesis
    using str_split_nonempty[of s sep] sampled_nonempty[of "txt"] by blast
qed

section \<open>Boilerplate detection\<close>

lemma detect_boilerplate_ids:
  "map bp_id (detect_boilerplate txt) =
     filter (\<lambda>j. \<exists>p \<in> set boilerplate_patterns. sublist p (lower (str_split txt (CHR ''.'') ! j)))
            [0..<length (str_split txt (CHR ''.''))]"
proof -
  have "map ((+) (0::nat)) xs = xs" for xs by (induction xs) simp_all
  then show ?thesis unfolding detect_boilerplate_def detect_from_ids by simp
qed

lemma detect_boilerplate_member:
  assumes "m \<in> set (detect_boilerplate txt)"
  shows "bp_id m < length (str_split txt (CHR ''.''))"
    and "bp_text m = strip (str_split txt (CHR ''.'') ! bp_id m)"
    and "confidence m = binary64 (8 / 10)"
    and "first_pattern boilerplate_patterns (lower (str_split txt (CHR ''.'') ! bp_id m))
           = Some (pattern_matched m)"
  using detect_from_member[OF assms[unfolded detect_boilerplate_def]] by auto

lemma delaware_matches:
  "detect_boilerplate delaware_text =
     [\<lparr>bp_id = 0, bp_text = ''This agreement shall be governed by the laws of Delaware'',
       pattern_matched = ''this agreement shall be governed by'',
       confidence = binary64 (8 / 10)\<rparr>]"
  by code_simp

text \<open>
  C7. The matches of \<open>detect_boilerplate\<close> are, in order, the segments whose lower-cased
  text contains some boilerplate pattern, each once: their ids are the indices of those
  segments, of any length, so a segment yields at most one match. In every match the
  confidence is the float \<open>0.8\<close>, the text is the stripped segment and
  \<open>pattern_matched\<close> is the first pattern of the list that occurs in the lower-cased
  segment: no pattern before it occurs there. On the governing-law sentence the result is
  one match, of segment 0, with the first pattern of the list.
\<close>

theorem detect_boilerplate_first_match:
  "map bp_id (detect_boilerplate txt) =
     filter (\<lambda>j. \<exists>p \<in> set boilerplate_patterns. sublist p (lower (str_split txt (CHR ''.'') ! j)))
            [0..<length (str_split txt (CHR ''.''))]
   \<and> distinct (map bp_id (detect_boilerplate txt))
   \<and> (\<forall>m \<in> set (detect_boilerplate txt).
        confidence m = binary64 (8 / 10)
        \<and> bp_text m = strip (str_split txt (CHR ''.'') ! bp_id m)
        \<and> (\<exists>before after.
              boilerplate_patterns = before @ pattern_matched m # after
              \<and> sublist (pattern_matched m) (lower (str_split txt (CHR ''.'') ! bp_id m))
              \<and> (\<forall>q \<in> set before. \<not> sublist q (lower (str_split txt (CHR ''.'') ! bp_id m)))))
   \<and> detect_boilerplate ''This agreement shall be governed by the laws of Delaware.'' =
       [\<lparr>bp_id = 0, bp_text = ''This agreement shall be governed by the laws of Delaware'',
         pattern_matched = hd boilerplate_patterns, confidence = binary64 (8 / 10)\<rparr>]
   \<and> hd boilerplate_patterns = ''this agreement shall be governed by''"
proof -
  have ids: "map bp_id (detect_boilerplate txt) =
     filter (\<lambda>j. \<exists>p \<in> set boilerplate_patterns. sublist p (lower (str_split txt (CHR ''.'') ! j)))
            [0..<length (str_split txt (CHR ''.''))]"
    by (rule detect_boilerplate_ids)
  have dist: "distinct (map bp_id (detect_boilerplate txt))"
    unfolding ids by simp
  have mem: "\<forall>m \<in> set (detect_boilerplate txt).
        confidence m = binary64 (8 / 10)
        \<and> bp_text m = strip (str_split txt (CHR ''.'') ! bp_id m)
        \<and> (\<exists>before after.
              boilerplate_patterns = before @ pattern_matched m # after
              \<and> sublist (pattern_matched m) (lower (str_split txt (CHR ''.'') ! bp_id m))
              \<and> (\<forall>q \<in> set before. \<not> sublist q (lower (str_split txt (CHR ''.'') ! bp_id m))))"
  proof
    fix m assume m: "m \<in> set (detect_boilerplate txt)"
    from detect_boilerplate_member(4)[OF m]
    have "\<exists>before after.
              boilerplate_patterns = before @ pattern_matched m # after
              \<and> sublist (pattern_matched m) (lower (str_split txt (CHR ''.'') ! bp_id m))
              \<and> (\<forall>q \<in> set before. \<not> sublist q (lower (str_split txt (CHR ''.'') ! bp_id m)))"
      by (simp only: first_pattern_Some)
    with detect_boilerplate_member(2,3)[OF m]
    show "confidence m = binary64 (8 / 10)
        \<and> bp_text m = strip (str_split txt (CHR ''.'') ! bp_id m)
        \<and> (\<exists>before after.
              boilerplate_patterns = before @ pattern_matched m # after
              \<and> sublist (pattern_matched m) (lower (str_split txt (CHR ''.'') ! bp_id m))
              \<and> (\<forall>q \<in> set before. \<not> sublist q (lower (str_split txt (CHR ''.'') ! bp_id m))))"
      by blast
  qed
  have hd: "hd boilerplate_patterns = ''this agreement shall be governed by''"
    by (simp add: boilerplate_patterns_def)
  have ex: "detect_boilerplate ''This agreement shall be governed by the laws of Delaware.'' =
       [\<lparr>bp_id = 0, bp_text = ''This agreement shall be governed by the laws of Delaware'',
         pattern_matched = hd boilerplate_patterns, confidence = binary64 (8 / 10)\<rparr>]"
    using delaware_matches unfolding hd delaware_text_def .
  from ids dist mem ex hd show ?thesis by blast
qed

text \<open>
  C7, witness: the match of the governing-law sentence.
\<close>

theorem detect_boilerplate_first_match_witness:
  "detect_boilerplate delaware_text ! 0 \<in> set (detect_boilerplate delaware_text)
   \<and> confidence (detect_boilerplate delaware_text ! 0) = binary64 (8 / 10)
   \<and> pattern_matched (detect_boilerplate delaware_text ! 0) = ''this agreement shall be governed by''
   \<and> map bp_id (detect_boilerplate delaware_text) = [0]"
proof -
  have m: "detect_boilerplate delaware_text ! 0 \<in> set (detect_boilerplate delaware_text)"
    by (simp add: delaware_matches)
  have p: "pattern_matched (detect_boilerplate delaware_text ! 0)
             = ''this agreement shall be governed by''"
    by (simp add: delaware_matches)
  have i: "map bp_id (detect_boilerplate delaware_text) = [0]"
    by (simp add: delaware_matches)
  from detect_boilerplate_first_match[of delaware_text] m p i show ?thesis by blast
qed

section \<open>Short segments\<close>

lemma extract_timeline_ids:
  "map sentence_id (extract_timeline_info findall dps urps txt) =
     filter (\<lambda>j. concat (map (\<lambda>p. findall p (str_split txt (CHR ''.'') ! j)) dps) \<noteq> []
                 \<or> concat (map (\<lambda>p. findall p (str_split txt (CHR ''.'') ! j)) urps) \<noteq> []
                 \<or> (\<exists>k \<in> set deadline_keywords.
                       sublist (lower k) (lower (str_split txt (CHR ''.'') ! j))))
            [0..<length (str_split txt (CHR ''.''))]"
proof -
  have "map ((+) (0::nat)) xs = xs" for xs by (induction xs) simp_all
  then show ?thesis unfolding extract_timeline_info_def timeline_from_ids by simp
qed

lemma short_segment_facts:
  "str_split short_segment_text (CHR ''.'') = [''Due date: no waiver'', '''']"
  "length (strip ''Due date: no waiver'') = 19"
  "classify_clauses short_segment_text = []"
  "str_in (lower ''due date'') (lower ''Due date: no waiver'')"
  "str_in ''no waiver'' (lower ''Due date: no waiver'')"
  by code_simp+

lemma short_segment_in_timeline:
  "0 \<in> set (map sentence_id (extract_timeline_info findall dps urps short_segment_text))"
proof -
  have "''due date'' \<in> set deadline_keywords" by (simp add: deadline_keywords_def)
  moreover have "sublist (lower ''due date'') (lower ''Due date: no waiver'')"
    using short_segment_facts(4) by (simp only: str_in_sublist)
  ultimately have "\<exists>k \<in> set deadline_keywords. sublist (lower k) (lower ''Due date: no waiver'')"
    by blast
  then show ?thesis
    unfolding extract_timeline_ids short_segment_facts(1) by simp
qed

lemma short_segment_in_boilerplate:
  "0 \<in> set (map bp_id (detect_boilerplate short_segment_text))"
proof -
  have "''no waiver'' \<in> set boilerplate_patterns" by (simp add: boilerplate_patterns_def)
  moreover have "sublist ''no waiver'' (lower ''Due date: no waiver'')"
    using short_segment_facts(5) by (simp only: str_in_sublist)
  ultimately have "\<exists>p \<in> set boilerplate_patterns. sublist p (lower ''Due date: no waiver'')"
    by blast
  then show ?thesis
    unfolding detect_boilerplate_ids short_segment_facts(1) by simp
qed

text \<open>
  C3. Every record of a classification comes from a segment whose stripped text has at
  least 20 characters, so a shorter segment never yields a record. The timeline pass and
  the boilerplate pass have no such filter: whatever the regular-expression engine
  returns, the timeline entries are exactly the segments with a date, a duration or a
  deadline keyword, and the boilerplate matches exactly the segments that contain a
  pattern. A segment of fewer than 20 characters can be in both results and in no
  record: the first segment of \<open>Due date: no waiver.\<close> is.
\<close>

theorem short_segments_only_skipped_by_classification:
  "(\<forall>c \<in> set (classify_clauses txt).
        clause_id c < length (str_split txt (CHR ''.''))
        \<and> 20 \<le> length (strip (str_split txt (CHR ''.'') ! clause_id c)))
   \<and> map sentence_id (extract_timeline_info findall dps urps txt) =
       filter (\<lambda>j. concat (map (\<lambda>p. findall p (str_split txt (CHR ''.'') ! j)) dps) \<noteq> []
                   \<or> concat (map (\<lambda>p. findall p (str_split txt (CHR ''.'') ! j)) urps) \<noteq> []
                   \<or> (\<exists>k \<in> set deadline_keywords.
                         sublist (lower k) (lower (str_split txt (CHR ''.'') ! j))))
              [0..<length (str_split txt (CHR ''.''))]
   \<and> map bp_id (detect_boilerplate txt) =
       filter (\<lambda>j. \<exists>p \<in> set boilerplate_patterns.
                     sublist p (lower (str_split txt (CHR ''.'') ! j)))
              [0..<length (str_split txt (CHR ''.''))]
   \<and> (\<exists>t j. j < length (str_split t (CHR ''.''))
        \<and> length (strip (str_split t (CHR ''.'') ! j)) < 20
        \<and> j \<notin> set (map clause_id (classify_clauses t))
        \<and> j \<in> set (map sentence_id (extract_timeline_info findall dps urps t))
        \<and> j \<in> set (map bp_id (detect_boilerplate t)))"
proof -
  have a: "\<forall>c \<in> set (classify_clauses txt).
        clause_id c < length (str_split txt (CHR ''.''))
        \<and> 20 \<le> length (strip (str_split txt (CHR ''.'') ! clause_id c))"
    using classify_clauses_member by blast
  have "0 < length (str_split short_segment_text (CHR ''.''))
        \<and> length (strip (str_split short_segment_text (CHR ''.'') ! 0)) < 20
        \<and> 0 \<notin> set (map clause_id (classify_clauses short_segment_text))
        \<and> 0 \<in> set (map sentence_id (extract_timeline_info findall dps urps short_segment_text))
        \<and> 0 \<in> set (map bp_id (detect_boilerplate short_segment_text))"
    using short_segment_in_timeline[of findall dps urps] short_segment_in_boilerplate
    by (simp add: short_segment_facts(1,2,3))
  then have d: "\<exists>t j. j < length (str_split t (CHR ''.''))
        \<and> length (strip (str_split t (CHR ''.'') ! j)) < 20
        \<and> j \<notin> set (map clause_id (classify_clauses t))
        \<and> j \<in> set (map sentence_id (extract_timeline_info findall dps urps t))
        \<and> j \<in> set (map bp_id (detect_boilerplate t))"
    by blast
  from a extract_timeline_ids[of findall dps urps "txt"] detect_boilerplate_ids[of "txt"] d
  show ?thesis by blast
qed

text \<open>
  C3, witness: the 19-character segment appears in the timeline and the boilerplate
  results and classification yields nothing; the first record of the scenario text comes
  from a segment of at least 20 characters.
\<close>

theorem short_segments_only_skipped_by_classification_witness:
  "length (strip (str_split short_segment_text (CHR ''.'') ! 0)) = 19
   \<and> classify_clauses short_segment_text = []
   \<and> map sentence_id
       (extract_timeline_info (\<lambda>(p :: unit) s. ([] :: string list)) [] [] short_segment_text) = [0]
   \<and> map bp_id (detect_boilerplate short_segment_text) = [0]
   \<and> classify_clauses scenario_text ! 0 \<in> set (classify_clauses scenario_text)
   \<and> 20 \<le> length (strip (str_split scenario_text (CHR ''.'')
                              ! clause_id (classify_clauses scenario_text ! 0)))"
proof -
  have k: "(\<exists>k \<in> set deadline_keywords. sublist (lower k) (lower ''Due date: no waiver''))"
    using short_segment_facts(4) by (auto simp: deadline_keywords_def str_in_sublist)
  have nk: "\<not> (\<exists>k \<in> set deadline_keywords. sublist (lower k) (lower ''''))"
    by (simp add: deadline_keywords_def lower_def char_lower_def)
  have p: "(\<exists>p \<in> set boilerplate_patterns. sublist p (lower ''Due date: no waiver''))"
    using short_segment_facts(5) by (auto simp: boilerplate_patterns_def str_in_sublist)
  have np: "\<not> (\<exists>p \<in> set boilerplate_patterns. sublist p (lower ''''))"
    by (simp add: boilerplate_patterns_def lower_def)
  have up: "[0..<2] = [0, Suc 0]" by (simp add: upt_rec)
  have m: "classify_clauses scenario_text ! 0 \<in> set (classify_clauses scenario_text)"
    by (simp add: scenario_clauses)
  from short_segments_only_skipped_by_classification
         [of short_segment_text "\<lambda>(p :: unit) s. ([] :: string list)" "[]" "[]"]
  have "map sentence_id
       (extract_timeline_info (\<lambda>(p :: unit) s. ([] :: string list)) [] [] short_segment_text) = [0]
     \<and> map bp_id (detect_boilerplate short_segment_text) = [0]"
    by (simp add: short_segment_facts(1) k nk p np up)
  moreover from short_segments_only_skipped_by_classification
         [of scenario_text "\<lambda>(p :: unit) s. ([] :: string list)" "[]" "[]"] m
  have "20 \<le> length (strip (str_split scenario_text (CHR ''.'')
                              ! clause_id (classify_clauses scenario_text ! 0)))"
    by blast
  ultimately show ?thesis using m by (simp add: short_segment_facts(1,2,3))
qed

end
